theory Spec2Isabelle
  imports Complex_Main "HOL-Library.Signed_Division" "HOL-Library.Word"
begin

unbundle bit_operations_syntax

section \<open>The GLFW platform facade (glfw\_platform.cpp)\<close>

subsection \<open>Data model\<close>

text \<open>
  The C \<^verbatim>\<open>int\<close> of the battery counter is modelled as \<open>int\<close>. The only arithmetic
  on it is \<^verbatim>\<open>%= 100\<close>, \<^verbatim>\<open>++\<close> and \<^verbatim>\<open>/ 20\<close>: after the remainder the value lies
  in \<open>-99..99\<close>, so the increment cannot overflow (lemma \<open>getBatteryLevel_no_overflow\<close>).
  C's \<^verbatim>\<open>%\<close> and \<^verbatim>\<open>/\<close> truncate towards zero: they are \<open>smod\<close> and \<open>sdiv\<close>, not HOL's
  flooring \<open>mod\<close> and \<open>div\<close>.
\<close>

datatype ThemeVariant = LIGHT | DARK

text \<open>A pointer to a sub-component: \<open>None\<close> is \<^verbatim>\<open>nullptr\<close>, \<open>Some a\<close> the object at address \<open>a\<close>.\<close>

type_synonym ptr = "nat option"

text \<open>The fields of a \<^verbatim>\<open>GLFWPlatform\<close> instance.\<close>

record GLFWPlatform =
  themeVariant :: ThemeVariant
  fontLoader :: ptr
  audioPlayer :: ptr
  videoContext :: ptr
  inputManager :: ptr

text \<open>
  The state the facade's operations can see: the module-global \<^verbatim>\<open>battery\<close>, the process
  environment read by \<^verbatim>\<open>getenv\<close> (\<open>None\<close> for an unset variable), and the instance
  \<^verbatim>\<open>this\<close>.
\<close>

record program_state =
  battery :: int
  environ :: "string \<rightharpoonup> string"
  this :: GLFWPlatform

subsection \<open>The battery counter and the wireless level\<close>

text \<open>\<^verbatim>\<open>int battery = 50;\<close>\<close>

definition battery_init :: int where
  "battery_init = 50"

text \<open>\<^verbatim>\<open>battery %= 100; battery++; return battery;\<close>\<close>

definition getBatteryLevel :: "program_state \<Rightarrow> int \<times> program_state" where
  "getBatteryLevel s =
     (let s1 = s\<lparr>battery := battery s smod 100\<rparr>;
          s2 = s1\<lparr>battery := battery s1 + 1\<rparr>
      in (battery s2, s2))"

text \<open>\<^verbatim>\<open>return battery / 20;\<close>\<close>

definition getWirelessLevel :: "program_state \<Rightarrow> int \<times> program_state" where
  "getWirelessLevel s = (battery s sdiv 20, s)"

text \<open>\<open>n\<close> successive calls of \<^verbatim>\<open>getBatteryLevel\<close>: the values returned, in order, and the final state.\<close>

fun getBatteryLevel_calls :: "nat \<Rightarrow> program_state \<Rightarrow> int list \<times> program_state" where
  "getBatteryLevel_calls 0 s = ([], s)"
| "getBatteryLevel_calls (Suc n) s =
     (case getBatteryLevel s of (v, s') \<Rightarrow>
        (case getBatteryLevel_calls n s' of (vs, s'') \<Rightarrow> (v # vs, s'')))"

text \<open>
  The wrap rule as the specification words it: the next value is \<open>(previous + 1) mod 100\<close>,
  with \<open>0\<close> mapped to \<open>1\<close>, so that the values cycle through \<open>1..99\<close>.
\<close>

definition spec_next_battery :: "int \<Rightarrow> int" where
  "spec_next_battery previous =
     (if (previous + 1) mod 100 = 0 then 1 else (previous + 1) mod 100)"

subsection \<open>Construction and the theme variant\<close>

text \<open>
  Modelled from the spec: the default member initialisers of the class, declared in
  \<^verbatim>\<open>glfw_platform.hpp\<close>, which is not among the sources. The spec's data model has the
  theme default to light ("anything else/unset defaults light"). The four sub-component
  pointers are taken to be null before the constructor body runs.
\<close>

definition GLFWPlatform_members :: GLFWPlatform where
  "GLFWPlatform_members =
     \<lparr>themeVariant = LIGHT, fontLoader = None, audioPlayer = None,
      videoContext = None, inputManager = None\<rparr>"

text \<open>\<^verbatim>\<open>getenv(name)\<close>: \<open>None\<close> is the null pointer of an unset variable.\<close>

definition getenv :: "program_state \<Rightarrow> string \<Rightarrow> string option" where
  "getenv s name = environ s name"

text \<open>
  A C string is the bytes before its terminating NUL: a \<open>string\<close> stands for one when no
  NUL occurs in it. The values of the environment are C strings.
\<close>

definition c_string :: "string \<Rightarrow> bool" where
  "c_string v \<longleftrightarrow> CHR 0x00 \<notin> set v"

text \<open>
  \<^verbatim>\<open>tolower\<close> and \<^verbatim>\<open>strcasecmp\<close> of the C library, in the C locale: each of the capital
  letters \<open>A..Z\<close> is mapped to its small letter, every other byte is kept, and the result
  of the comparison is the difference of the first two folded bytes that differ (\<open>0\<close> when
  there is none), the end of a string counting as the terminator, of code \<open>0\<close>.
\<close>

definition tolower :: "char \<Rightarrow> char" where
  "tolower c =
     (case map_of (zip ''ABCDEFGHIJKLMNOPQRSTUVWXYZ'' ''abcdefghijklmnopqrstuvwxyz'') c of
        None \<Rightarrow> c
      | Some l \<Rightarrow> l)"

fun strcasecmp :: "string \<Rightarrow> string \<Rightarrow> int" where
  "strcasecmp [] [] = 0"
| "strcasecmp [] (d # ds) = - of_char (tolower d)"
| "strcasecmp (c # cs) [] = of_char (tolower c)"
| "strcasecmp (c # cs) (d # ds) =
     (if tolower c = tolower d then strcasecmp cs ds
      else of_char (tolower c) - of_char (tolower d))"

text \<open>
  The constructor. \<open>glfwInit_result\<close> is what \<^verbatim>\<open>glfwInit()\<close> returns (\<open>0\<close> on failure),
  \<open>new_fontLoader\<close> and \<open>new_audioPlayer\<close> are the addresses the two \<^verbatim>\<open>new\<close> expressions
  return.
  \<^verbatim>\<open>
  if (!glfwInit()) { Logger::error(...); return; }
  char* themeEnv = getenv("BOREALIS_THEME");
  if (themeEnv != nullptr && !strcasecmp(themeEnv, "DARK"))
      this->themeVariant = ThemeVariant::DARK;
  glfwSetTime(0.0);
  this->fontLoader  = new GLFWFontLoader();
  this->audioPlayer = new NullAudioPlayer();
  \<close>
\<close>

definition GLFWPlatform_ctor :: "int \<Rightarrow> nat \<Rightarrow> nat \<Rightarrow> program_state \<Rightarrow> program_state" where
  "GLFWPlatform_ctor glfwInit_result new_fontLoader new_audioPlayer s =
     (let s0 = s\<lparr>this := GLFWPlatform_members\<rparr> in
      if glfwInit_result = 0 then s0
      else
        let themeEnv = getenv s0 ''BOREALIS_THEME'';
            s1 = (case themeEnv of
                    None \<Rightarrow> s0
                  | Some v \<Rightarrow>
                      if strcasecmp v ''DARK'' = 0
                      then s0\<lparr>this := (this s0)\<lparr>themeVariant := DARK\<rparr>\<rparr>
                      else s0);
            s2 = s1\<lparr>this := (this s1)\<lparr>fontLoader := Some new_fontLoader\<rparr>\<rparr>;
            s3 = s2\<lparr>this := (this s2)\<lparr>audioPlayer := Some new_audioPlayer\<rparr>\<rparr>
        in s3)"

text \<open>The process when the facade is constructed: the counter at its initialiser, an environment.\<close>

definition process_start :: "(string \<rightharpoonup> string) \<Rightarrow> program_state" where
  "process_start env = \<lparr>battery = battery_init, environ = env, this = GLFWPlatform_members\<rparr>"

text \<open>
  \<^verbatim>\<open>createWindow\<close>: the two \<^verbatim>\<open>new\<close> expressions return \<open>new_videoContext\<close> and
  \<open>new_inputManager\<close>; title and size only reach the video context.
\<close>

definition createWindow :: "nat \<Rightarrow> nat \<Rightarrow> program_state \<Rightarrow> program_state" where
  "createWindow new_videoContext new_inputManager s =
     (let s1 = s\<lparr>this := (this s)\<lparr>videoContext := Some new_videoContext\<rparr>\<rparr>;
          s2 = s1\<lparr>this := (this s1)\<lparr>inputManager := Some new_inputManager\<rparr>\<rparr>
      in s2)"

definition getThemeVariant :: "program_state \<Rightarrow> ThemeVariant \<times> program_state" where
  "getThemeVariant s = (themeVariant (this s), s)"

definition setThemeVariant :: "ThemeVariant \<Rightarrow> program_state \<Rightarrow> program_state" where
  "setThemeVariant theme s = s\<lparr>this := (this s)\<lparr>themeVariant := theme\<rparr>\<rparr>"

text \<open>
  The specification's wording of the theme rule: the value "equals dark in any letter case"
  when it is one of the spellings of \<open>dark\<close> obtained by choosing, letter by letter, the
  small or the capital letter.
\<close>

fun letter_case_spellings :: "(char \<times> char) list \<Rightarrow> string list" where
  "letter_case_spellings [] = [[]]"
| "letter_case_spellings ((lo, up) # ps) =
     map ((#) lo) (letter_case_spellings ps) @ map ((#) up) (letter_case_spellings ps)"

definition dark_in_any_letter_case :: "string \<Rightarrow> bool" where
  "dark_in_any_letter_case v \<longleftrightarrow>
     v \<in> set (letter_case_spellings
                [(CHR ''d'', CHR ''D''), (CHR ''a'', CHR ''A''),
                 (CHR ''r'', CHR ''R''), (CHR ''k'', CHR ''K'')])"

definition spec_theme :: "string option \<Rightarrow> ThemeVariant" where
  "spec_theme value = (case value of
      None \<Rightarrow> LIGHT
    | Some v \<Rightarrow> if dark_in_any_letter_case v then DARK else LIGHT)"

subsection \<open>The other capability queries\<close>

text \<open>
  Each query is a function from the state to its result and the state after the call.
  \<open>LOCALE_DEFAULT\<close> is a constant of \<^verbatim>\<open>i18n.hpp\<close>, which is not among the sources: it is a
  parameter of \<open>getLocale\<close>.
\<close>

definition canShowBatteryLevel :: "program_state \<Rightarrow> bool \<times> program_state" where
  "canShowBatteryLevel s = (True, s)"

definition isBatteryCharging :: "program_state \<Rightarrow> bool \<times> program_state" where
  "isBatteryCharging s = (True, s)"

definition hasWirelessConnection :: "program_state \<Rightarrow> bool \<times> program_state" where
  "hasWirelessConnection s = (True, s)"

definition getIpAddress :: "program_state \<Rightarrow> string \<times> program_state" where
  "getIpAddress s = (''0.0.0.0'', s)"

definition getDnsServer :: "program_state \<Rightarrow> string \<times> program_state" where
  "getDnsServer s = (''0.0.0.0'', s)"

definition isApplicationMode :: "program_state \<Rightarrow> bool \<times> program_state" where
  "isApplicationMode s = (True, s)"

definition getName :: "program_state \<Rightarrow> string \<times> program_state" where
  "getName s = (''GLFW'', s)"

text \<open>
  \<^verbatim>\<open>
  char* langEnv = getenv("BOREALIS_LANG");
  if (langEnv == nullptr) return LOCALE_DEFAULT;
  return std::string(langEnv);
  \<close>
\<close>

definition getLocale :: "string \<Rightarrow> program_state \<Rightarrow> string \<times> program_state" where
  "getLocale LOCALE_DEFAULT s =
     (case getenv s ''BOREALIS_LANG'' of
        None \<Rightarrow> (LOCALE_DEFAULT, s)
      | Some langEnv \<Rightarrow> (langEnv, s))"

text \<open>
  The calls a client can make on the facade between construction and destruction, and the
  state after a call and after a sequence of calls (results dropped). \<^verbatim>\<open>openBrowser\<close> and
  the four accessors touch neither the counter, the environment nor a field.
\<close>

datatype facade_call =
    CanShowBatteryLevel | GetBatteryLevel | IsBatteryCharging | HasWirelessConnection
  | GetWirelessLevel | GetIpAddress | GetDnsServer | IsApplicationMode | GetName
  | GetLocale | GetThemeVariant | SetThemeVariant ThemeVariant | CreateWindow nat nat
  | ExitToHomeMode bool | ForceEnableGamePlayRecording

fun exec_call :: "string \<Rightarrow> facade_call \<Rightarrow> program_state \<Rightarrow> program_state" where
  "exec_call ld CanShowBatteryLevel s = snd (canShowBatteryLevel s)"
| "exec_call ld GetBatteryLevel s = snd (getBatteryLevel s)"
| "exec_call ld IsBatteryCharging s = snd (isBatteryCharging s)"
| "exec_call ld HasWirelessConnection s = snd (hasWirelessConnection s)"
| "exec_call ld GetWirelessLevel s = snd (getWirelessLevel s)"
| "exec_call ld GetIpAddress s = snd (getIpAddress s)"
| "exec_call ld GetDnsServer s = snd (getDnsServer s)"
| "exec_call ld IsApplicationMode s = snd (isApplicationMode s)"
| "exec_call ld GetName s = snd (getName s)"
| "exec_call ld GetLocale s = snd (getLocale ld s)"
| "exec_call ld GetThemeVariant s = snd (getThemeVariant s)"
| "exec_call ld (SetThemeVariant theme) s = setThemeVariant theme s"
| "exec_call ld (CreateWindow vc im) s = createWindow vc im s"
| "exec_call ld (ExitToHomeMode v) s = s"
| "exec_call ld ForceEnableGamePlayRecording s = s"

fun exec_calls :: "string \<Rightarrow> facade_call list \<Rightarrow> program_state \<Rightarrow> program_state" where
  "exec_calls ld [] s = s"
| "exec_calls ld (c # cs) s = exec_calls ld cs (exec_call ld c s)"

subsection \<open>Destruction\<close>

text \<open>
  \<^verbatim>\<open>delete p\<close> does nothing on a null pointer, and otherwise destroys the object \<open>p\<close> points
  to: the log records which sub-component was destroyed, at which address, in the order of
  destruction.
\<close>

datatype component = FontLoader | AudioPlayer | VideoContext | InputManager

fun delete :: "component \<Rightarrow> ptr \<Rightarrow> (component \<times> nat) list \<Rightarrow> (component \<times> nat) list" where
  "delete c None destroyed = destroyed"
| "delete c (Some p) destroyed = destroyed @ [(c, p)]"

text \<open>
  \<^verbatim>\<open>
  delete this->fontLoader;
  delete this->audioPlayer;
  delete this->videoContext;
  delete this->inputManager;
  \<close>
\<close>

definition GLFWPlatform_dtor :: "GLFWPlatform \<Rightarrow> (component \<times> nat) list \<Rightarrow> (component \<times> nat) list" where
  "GLFWPlatform_dtor self destroyed =
     (let d1 = delete FontLoader (fontLoader self) destroyed;
          d2 = delete AudioPlayer (audioPlayer self) d1;
          d3 = delete VideoContext (videoContext self) d2;
          d4 = delete InputManager (inputManager self) d3
      in d4)"

subsection \<open>The main loop iteration\<close>

text \<open>
  GLFW is an external library. Its window and event state is a value of an arbitrary type
  \<open>'w\<close>, and the four entry points \<^verbatim>\<open>mainLoopIteration\<close> calls are the fields of a record:
  nothing is assumed about what they do. \<^verbatim>\<open>glfwWaitEvents\<close> puts the thread to sleep until
  an event arrives: \<open>None\<close> is the wait that never ends. The window handle
  \<^verbatim>\<open>this->videoContext->getGLFWWindow()\<close> is part of \<open>'w\<close>.
\<close>

record 'w glfw =
  glfwGetWindowAttrib :: "'w \<Rightarrow> int \<Rightarrow> int"
  glfwPollEvents :: "'w \<Rightarrow> 'w"
  glfwWaitEvents :: "'w \<Rightarrow> 'w option"
  glfwWindowShouldClose :: "'w \<Rightarrow> int"

text \<open>\<^verbatim>\<open>#define GLFW_ICONIFIED 0x00020002\<close> (glfw3.h)\<close>

definition GLFW_ICONIFIED :: int where
  "GLFW_ICONIFIED = 0x00020002"

text \<open>
  The \<^verbatim>\<open>do ... while (!isActive)\<close> loop; the result is the GLFW state when the loop is left.
  \<^verbatim>\<open>
  do {
      isActive = !glfwGetWindowAttrib(window, GLFW_ICONIFIED);
      if (isActive) glfwPollEvents(); else glfwWaitEvents();
  } while (!isActive);
  \<close>
  The loop need not end: the function is partial, and \<open>None\<close> is the call that never returns.
\<close>

partial_function (option) mainLoopIteration_loop :: "'w glfw \<Rightarrow> 'w \<Rightarrow> 'w option" where
  "mainLoopIteration_loop g w =
     (if glfwGetWindowAttrib g w GLFW_ICONIFIED = 0
      then Some (glfwPollEvents g w)
      else Option.bind (glfwWaitEvents g w) (mainLoopIteration_loop g))"

text \<open>\<^verbatim>\<open>return !glfwWindowShouldClose(window);\<close>\<close>

definition mainLoopIteration :: "'w glfw \<Rightarrow> 'w \<Rightarrow> (bool \<times> 'w) option" where
  "mainLoopIteration g w =
     map_option (\<lambda>w'. (glfwWindowShouldClose g w' = 0, w')) (mainLoopIteration_loop g w)"


text \<open>
  \<open>k\<close> waits in a row, each one begun with the window minimized: the state after the last one,
  or \<open>None\<close> when the window is found not minimized before one of them or a wait never ends.
\<close>

fun minimized_waits :: "'w glfw \<Rightarrow> nat \<Rightarrow> 'w \<Rightarrow> 'w option" where
  "minimized_waits g 0 w = Some w"
| "minimized_waits g (Suc k) w =
     (if glfwGetWindowAttrib g w GLFW_ICONIFIED = 0 then None
      else Option.bind (glfwWaitEvents g w) (minimized_waits g k))"

text \<open>
  A small window system to run the loop on. Events arrive in batches; a call of
  \<^verbatim>\<open>glfwPollEvents\<close> or \<^verbatim>\<open>glfwWaitEvents\<close> handles the next batch, a wait with no batch
  left never ends, and every call is noted in \<open>trace\<close>.
\<close>

datatype sim_event = Iconify | Restore | CloseRequest

datatype sim_call = Poll | Wait

record sim_window =
  iconified :: bool
  shouldClose :: bool
  batches :: "sim_event list list"
  trace :: "sim_call list"

fun sim_handle :: "sim_event \<Rightarrow> sim_window \<Rightarrow> sim_window" where
  "sim_handle Iconify w = w\<lparr>iconified := True\<rparr>"
| "sim_handle Restore w = w\<lparr>iconified := False\<rparr>"
| "sim_handle CloseRequest w = w\<lparr>shouldClose := True\<rparr>"

definition sim_glfw :: "sim_window glfw" where
  "sim_glfw =
     \<lparr>glfwGetWindowAttrib = (\<lambda>w attrib. if attrib = GLFW_ICONIFIED \<and> iconified w then 1 else 0),
      glfwPollEvents = (\<lambda>w. case batches w of
          [] \<Rightarrow> w\<lparr>trace := trace w @ [Poll]\<rparr>
        | b # bs \<Rightarrow> fold sim_handle b (w\<lparr>batches := bs, trace := trace w @ [Poll]\<rparr>)),
      glfwWaitEvents = (\<lambda>w. case batches w of
          [] \<Rightarrow> None
        | b # bs \<Rightarrow> Some (fold sim_handle b (w\<lparr>batches := bs, trace := trace w @ [Wait]\<rparr>))),
      glfwWindowShouldClose = (\<lambda>w. if shouldClose w then 1 else 0)\<rparr>"


definition sim_minimized :: sim_window where
  "sim_minimized = \<lparr>iconified = True, shouldClose = False,
                    batches = [[CloseRequest], [Restore], [Iconify]], trace = []\<rparr>"

section \<open>The GLFW video context (glfw\_video.cpp)\<close>

text \<open>
  The C \<^verbatim>\<open>double\<close> and \<^verbatim>\<open>float\<close> are type variables \<open>'d\<close> and \<open>'f\<close>: the code multiplies
  and divides doubles once and otherwise copies floating-point values, so the operations
  are those of the type classes and the conversion of an \<^verbatim>\<open>int\<close> to \<^verbatim>\<open>double\<close> is a
  parameter (\<open>to_double\<close>). The calls that leave the module (OpenGL, the logger, the
  application object) are recorded in order.
\<close>

datatype ('d, 'f) external_call =
    GlViewport int int int int
  | LoggerInfo_windowSize int int
  | LoggerInfo_framebufferSize int int
  | LoggerInfo_scaleFactor 'd
  | Application_onWindowResized int int
  | GlClearColor 'f 'f 'f 'f
  | GlClear "32 word"

record ('d, 'f) video_state =
  scaleFactor :: 'd
  calls :: "('d, 'f) external_call list"




text \<open>The \<^verbatim>\<open>NVGcolor\<close> structure of nanovg: four \<^verbatim>\<open>float\<close> channels \<^verbatim>\<open>r, g, b, a\<close>.\<close>

record 'f NVGcolor =
  color_r :: 'f
  color_g :: 'f
  color_b :: 'f
  color_a :: 'f

text \<open>The buffer bits of the OpenGL headers.\<close>

definition GL_COLOR_BUFFER_BIT :: "32 word" where
  "GL_COLOR_BUFFER_BIT = 0x00004000"

definition GL_DEPTH_BUFFER_BIT :: "32 word" where
  "GL_DEPTH_BUFFER_BIT = 0x00000100"

definition GL_STENCIL_BUFFER_BIT :: "32 word" where
  "GL_STENCIL_BUFFER_BIT = 0x00000400"

text \<open>
  \<^verbatim>\<open>
  glClearColor(color.r, color.g, color.b, 1.0f);
  glClear(GL_COLOR_BUFFER_BIT | GL_DEPTH_BUFFER_BIT | GL_STENCIL_BUFFER_BIT);
  \<close>
\<close>

definition clear :: "('f::one) NVGcolor \<Rightarrow> ('d, 'f) video_state \<Rightarrow> ('d, 'f) video_state" where
  "clear color v =
     (let v1 = v\<lparr>calls := calls v @
                  [GlClearColor (color_r color) (color_g color) (color_b color) 1]\<rparr>;
          v2 = v1\<lparr>calls := calls v1 @
                  [GlClear (GL_COLOR_BUFFER_BIT OR GL_DEPTH_BUFFER_BIT OR GL_STENCIL_BUFFER_BIT)]\<rparr>
      in v2)"

section \<open>Properties\<close>

subsection \<open>Battery counter\<close>

lemma smod_100_nonneg: "0 \<le> b \<Longrightarrow> b smod 100 = b mod (100::int)"
  by (simp add: signed_modulo_int_def sgn_if)

lemma smod_100_bounds: "- 99 \<le> b smod (100::int) \<and> b smod 100 \<le> 99"
  unfolding signed_modulo_int_def sgn_if
  by (cases "b < 0"; cases "b = 0"; simp; presburger)

lemma getBatteryLevel_eq:
  "getBatteryLevel s = (battery s smod 100 + 1, s\<lparr>battery := battery s smod 100 + 1\<rparr>)"
  by (simp add: getBatteryLevel_def Let_def)

lemma getBatteryLevel_no_overflow:
  "- 98 \<le> fst (getBatteryLevel s) \<and> fst (getBatteryLevel s) \<le> 100"
  using smod_100_bounds [of "battery s"] by (simp add: getBatteryLevel_eq)

lemma getBatteryLevel_calls_Suc:
  "fst (getBatteryLevel_calls (Suc n) s) =
     fst (getBatteryLevel s) # fst (getBatteryLevel_calls n (snd (getBatteryLevel s)))"
  by (simp split: prod.splits)

lemma getBatteryLevel_calls_length: "length (fst (getBatteryLevel_calls n s)) = n"
  by (induction n arbitrary: s) (simp_all add: getBatteryLevel_calls_Suc del: getBatteryLevel_calls.simps(2))

lemma getBatteryLevel_calls_nth:
  "0 \<le> battery s \<Longrightarrow> k < n \<Longrightarrow>
   fst (getBatteryLevel_calls n s) ! k = (battery s + int k) mod 100 + 1"
proof (induction n arbitrary: s k)
  case 0
  then show ?case by simp
next
  case (Suc n)
  let ?s' = "s\<lparr>battery := battery s smod 100 + 1\<rparr>"
  have b': "battery ?s' = battery s mod 100 + 1"
    using Suc.prems(1) by (simp add: smod_100_nonneg)
  show ?case
  proof (cases k)
    case 0
    then show ?thesis
      using Suc.prems(1)
      by (simp add: getBatteryLevel_calls_Suc getBatteryLevel_eq smod_100_nonneg
               del: getBatteryLevel_calls.simps(2))
  next
    case (Suc j)
    have "0 \<le> battery ?s'" using b' by simp
    moreover have "j < n" using Suc Suc.prems(2) by simp
    ultimately have "fst (getBatteryLevel_calls n ?s') ! j = (battery ?s' + int j) mod 100 + 1"
      by (rule Suc.IH)
    moreover have "(battery ?s' + int j) mod 100 = (battery s + int k) mod 100"
    proof -
      have "(battery s mod 100 + 1 + int j) mod 100 = (battery s mod 100 + (1 + int j)) mod 100"
        by (simp add: add.assoc)
      also have "\<dots> = (battery s + (1 + int j)) mod 100"
        by (rule mod_add_left_eq)
      finally show ?thesis using b' Suc by (simp add: add.commute)
    qed
    ultimately show ?thesis
      using Suc
      by (simp add: getBatteryLevel_calls_Suc getBatteryLevel_eq
               del: getBatteryLevel_calls.simps(2))
  qed
qed

subsection \<open>Case folding\<close>

lemma tolower_d: "tolower c = CHR ''d'' \<longleftrightarrow> c = CHR ''d'' \<or> c = CHR ''D''"
  by (auto simp: tolower_def split: if_splits)

lemma tolower_a: "tolower c = CHR ''a'' \<longleftrightarrow> c = CHR ''a'' \<or> c = CHR ''A''"
  by (auto simp: tolower_def split: if_splits)

lemma tolower_r: "tolower c = CHR ''r'' \<longleftrightarrow> c = CHR ''r'' \<or> c = CHR ''R''"
  by (auto simp: tolower_def split: if_splits)

lemma tolower_k: "tolower c = CHR ''k'' \<longleftrightarrow> c = CHR ''k'' \<or> c = CHR ''K''"
  by (auto simp: tolower_def split: if_splits)

lemma tolower_NUL: "tolower c = CHR 0x00 \<longleftrightarrow> c = CHR 0x00"
  by (auto simp: tolower_def split: if_splits)

lemma of_char_int_zero: "(of_char c :: int) = 0 \<longleftrightarrow> c = CHR 0x00"
proof -
  have "(of_char c :: int) = of_char (CHR 0x00) \<longleftrightarrow> c = CHR 0x00"
    by (rule of_char_eq_iff)
  then show ?thesis by simp
qed

lemma strcasecmp_zero_iff:
  "c_string v \<Longrightarrow> c_string w \<Longrightarrow> strcasecmp v w = 0 \<longleftrightarrow> map tolower v = map tolower w"
proof (induction v w rule: strcasecmp.induct)
  case 1
  then show ?case by simp
next
  case (2 d ds)
  then have "d \<noteq> CHR 0x00" by (auto simp: c_string_def)
  then show ?case by (simp add: of_char_int_zero tolower_NUL)
next
  case (3 c cs)
  then have "c \<noteq> CHR 0x00" by (auto simp: c_string_def)
  then show ?case by (simp add: of_char_int_zero tolower_NUL)
next
  case (4 c cs d ds)
  then show ?case by (auto simp: c_string_def)
qed

lemma dark_spellings:
  "map tolower v = ''dark'' \<longleftrightarrow> dark_in_any_letter_case v"
proof -
  have "map tolower v = ''dark'' \<longleftrightarrow>
     (\<exists>c1 c2 c3 c4. v = [c1, c2, c3, c4] \<and> tolower c1 = CHR ''d'' \<and> tolower c2 = CHR ''a''
        \<and> tolower c3 = CHR ''r'' \<and> tolower c4 = CHR ''k'')"
    by (auto simp: map_eq_Cons_conv)
  also have "\<dots> \<longleftrightarrow> dark_in_any_letter_case v"
    unfolding tolower_d tolower_a tolower_r tolower_k dark_in_any_letter_case_def by auto
  finally show ?thesis .
qed

lemma tolower_DARK: "map tolower ''DARK'' = ''dark''"
  by (simp add: tolower_def)

lemma strcasecmp_DARK:
  "c_string v \<Longrightarrow> strcasecmp v ''DARK'' = 0 \<longleftrightarrow> dark_in_any_letter_case v"
proof -
  assume v: "c_string v"
  have "c_string ''DARK''" by (simp add: c_string_def)
  from strcasecmp_zero_iff [OF v this] show ?thesis
    by (simp only: tolower_DARK dark_spellings)
qed

subsection \<open>The loop of the main loop iteration\<close>

lemma loop_of_waits:
  "minimized_waits g k w = Some wk \<Longrightarrow> glfwGetWindowAttrib g wk GLFW_ICONIFIED = 0 \<Longrightarrow>
   mainLoopIteration_loop g w = Some (glfwPollEvents g wk)"
proof (induction k arbitrary: w)
  case 0
  then show ?case by (simp add: mainLoopIteration_loop.simps)
next
  case (Suc k)
  from Suc.prems(1) have icon: "glfwGetWindowAttrib g w GLFW_ICONIFIED \<noteq> 0"
    by (simp split: if_splits)
  with Suc.prems(1) obtain w1 where w1: "glfwWaitEvents g w = Some w1"
    and rest: "minimized_waits g k w1 = Some wk"
    by (auto simp: bind_eq_Some_conv)
  from Suc.IH [OF rest Suc.prems(2)] icon w1 show ?case
    by (subst mainLoopIteration_loop.simps) simp
qed

lemma waits_of_loop:
  "mainLoopIteration_loop g w = Some w' \<Longrightarrow>
   \<exists>k wk. minimized_waits g k w = Some wk \<and> glfwGetWindowAttrib g wk GLFW_ICONIFIED = 0
     \<and> w' = glfwPollEvents g wk"
proof (induction g w w' rule: mainLoopIteration_loop.raw_induct [rotated 1, consumes 1])
  case (1 loop g w w')
  show ?case
  proof (cases "glfwGetWindowAttrib g w GLFW_ICONIFIED = 0")
    case True
    with 1(2) have "minimized_waits g 0 w = Some w \<and> w' = glfwPollEvents g w" by simp
    with True show ?thesis by blast
  next
    case False
    with 1(2) obtain w1 where w1: "glfwWaitEvents g w = Some w1" and l: "loop g w1 = Some w'"
      by (auto simp: bind_eq_Some_conv)
    from 1(1) [OF l] obtain k wk where kw: "minimized_waits g k w1 = Some wk"
      "glfwGetWindowAttrib g wk GLFW_ICONIFIED = 0" "w' = glfwPollEvents g wk" by blast
    with False w1 have "minimized_waits g (Suc k) w = Some wk" by simp
    with kw(2,3) show ?thesis by blast
  qed
qed

subsection \<open>Theme and locale\<close>

lemma theme_after_ctor:
  "themeVariant (this (GLFWPlatform_ctor glfwInit_result a b s)) =
     (if glfwInit_result = 0 then LIGHT
      else case environ s ''BOREALIS_THEME'' of
             None \<Rightarrow> LIGHT
           | Some v \<Rightarrow> if strcasecmp v ''DARK'' = 0 then DARK else LIGHT)"
  by (simp add: GLFWPlatform_ctor_def GLFWPlatform_members_def getenv_def Let_def
           split: option.splits)

text \<open>
  C5, as stated, fails: when \<^verbatim>\<open>glfwInit()\<close> fails the constructor returns before it reads
  \<^verbatim>\<open>BOREALIS_THEME\<close>, and the theme stays light although the variable is \<open>dark\<close>.
\<close>

theorem ctor_theme_init_failure:
  "fst (getThemeVariant
         (GLFWPlatform_ctor 0 1 2 (process_start [''BOREALIS_THEME'' \<mapsto> ''dark''])))
     = LIGHT
   \<and> spec_theme ([''BOREALIS_THEME'' \<mapsto> ''dark''] ''BOREALIS_THEME'') = DARK"
  by (simp add: getThemeVariant_def theme_after_ctor process_start_def spec_theme_def
        dark_in_any_letter_case_def)

text \<open>
  C5, amended: when the windowing library initialises, the constructor leaves the theme
  variant \<open>DARK\<close> if \<^verbatim>\<open>BOREALIS_THEME\<close> is \<open>dark\<close> in any letter case and \<open>LIGHT\<close> if it is
  unset, empty or anything else; when the library fails to initialise the variant is
  \<open>LIGHT\<close>; and after \<open>setThemeVariant t\<close> the getter returns \<open>t\<close>.
\<close>

theorem theme_selection:
  "(glfwInit_result \<noteq> 0 \<and> (\<forall>v. environ s ''BOREALIS_THEME'' = Some v \<longrightarrow> c_string v) \<longrightarrow>
      fst (getThemeVariant (GLFWPlatform_ctor glfwInit_result a b s))
        = spec_theme (environ s ''BOREALIS_THEME''))
   \<and> (glfwInit_result = 0 \<longrightarrow>
      fst (getThemeVariant (GLFWPlatform_ctor glfwInit_result a b s)) = LIGHT)
   \<and> fst (getThemeVariant (setThemeVariant t s')) = t
   \<and> snd (getThemeVariant (setThemeVariant t s')) = setThemeVariant t s'"
  by (auto simp: getThemeVariant_def setThemeVariant_def theme_after_ctor spec_theme_def
        strcasecmp_DARK split: option.splits)

theorem theme_selection_witness:
  "(1::int) \<noteq> 0 \<and> c_string ''DaRk'' \<and> c_string '''' \<and> c_string ''darker''
   \<and> fst (getThemeVariant (GLFWPlatform_ctor 1 1 2 (process_start [''BOREALIS_THEME'' \<mapsto> ''DaRk''])))
     = DARK
   \<and> fst (getThemeVariant (GLFWPlatform_ctor 1 1 2 (process_start [''BOREALIS_THEME'' \<mapsto> ''''])))
     = LIGHT
   \<and> fst (getThemeVariant (GLFWPlatform_ctor 1 1 2 (process_start Map.empty))) = LIGHT
   \<and> fst (getThemeVariant (GLFWPlatform_ctor 1 1 2 (process_start [''BOREALIS_THEME'' \<mapsto> ''darker''])))
     = LIGHT
   \<and> fst (getThemeVariant (GLFWPlatform_ctor 0 1 2 (process_start [''BOREALIS_THEME'' \<mapsto> ''DARK''])))
     = LIGHT
   \<and> fst (getThemeVariant (setThemeVariant DARK (process_start Map.empty))) = DARK"
  using theme_selection [of 1 "process_start [''BOREALIS_THEME'' \<mapsto> ''DaRk'']" 1 2 DARK "process_start Map.empty"]
    theme_selection [of 1 "process_start [''BOREALIS_THEME'' \<mapsto> '''']" 1 2]
    theme_selection [of 1 "process_start Map.empty" 1 2]
    theme_selection [of 1 "process_start [''BOREALIS_THEME'' \<mapsto> ''darker'']" 1 2]
    theme_selection [of 0 "process_start [''BOREALIS_THEME'' \<mapsto> ''DARK'']" 1 2]
  by (simp add: process_start_def spec_theme_def dark_in_any_letter_case_def c_string_def)

text \<open>
  C6: \<open>getLocale\<close> returns the compiled-in default when \<^verbatim>\<open>BOREALIS_LANG\<close> is unset, and
  any set value as it is, whatever it is.
\<close>

theorem getLocale_env:
  "(environ s ''BOREALIS_LANG'' = None \<longrightarrow>
      getLocale LOCALE_DEFAULT s = (LOCALE_DEFAULT, s))
   \<and> (\<forall>v. environ s ''BOREALIS_LANG'' = Some v \<longrightarrow> getLocale LOCALE_DEFAULT s = (v, s))"
  by (simp add: getLocale_def getenv_def)

theorem getLocale_env_witness:
  "environ (process_start Map.empty) ''BOREALIS_LANG'' = None
   \<and> environ (process_start [''BOREALIS_LANG'' \<mapsto> '''']) ''BOREALIS_LANG'' = Some ''''
   \<and> fst (getLocale ''en-US'' (process_start Map.empty)) = ''en-US''
   \<and> fst (getLocale ''en-US'' (process_start [''BOREALIS_LANG'' \<mapsto> ''''])) = ''''
   \<and> fst (getLocale ''en-US'' (process_start [''BOREALIS_LANG'' \<mapsto> ''not a locale!'']))
       = ''not a locale!''"
  using getLocale_env [of "process_start Map.empty" "''en-US''"]
    getLocale_env [of "process_start [''BOREALIS_LANG'' \<mapsto> '''']" "''en-US''"]
    getLocale_env [of "process_start [''BOREALIS_LANG'' \<mapsto> ''not a locale!'']" "''en-US''"]
  by (simp add: process_start_def)

subsection \<open>Battery counter, wireless level and the frame of the queries\<close>

lemma sdiv_20_nonneg: "0 \<le> b \<Longrightarrow> b sdiv 20 = b div (20::int)"
  by (simp add: signed_divide_int_def sgn_if)

lemma floor_div_20: "\<lfloor>real_of_int b / 20\<rfloor> = b div 20"
  using floor_divide_of_int_eq [of b 20, where ?'a = real] by simp

lemma getBatteryLevel_range:
  "0 \<le> battery s \<Longrightarrow> 1 \<le> fst (getBatteryLevel s) \<and> fst (getBatteryLevel s) \<le> 100"
proof -
  assume nn: "0 \<le> battery s"
  have "0 \<le> battery s mod 100" "battery s mod 100 < 100" by simp_all
  then show ?thesis
    using nn by (simp add: getBatteryLevel_eq smod_100_nonneg)
qed

lemma battery_ctor: "battery (GLFWPlatform_ctor r a b s) = battery s"
  by (simp add: GLFWPlatform_ctor_def Let_def split: option.splits)

lemma exec_call_battery_range:
  "1 \<le> battery s \<and> battery s \<le> 100 \<Longrightarrow>
   1 \<le> battery (exec_call ld c s) \<and> battery (exec_call ld c s) \<le> 100"
proof (cases c)
  case GetBatteryLevel
  assume "1 \<le> battery s \<and> battery s \<le> 100"
  then have "0 \<le> battery s" by simp
  from getBatteryLevel_range [OF this] show ?thesis
    using GetBatteryLevel by (simp add: getBatteryLevel_eq)
qed (simp_all add: canShowBatteryLevel_def isBatteryCharging_def hasWirelessConnection_def
       getWirelessLevel_def getIpAddress_def getDnsServer_def isApplicationMode_def
       getName_def getLocale_def getThemeVariant_def setThemeVariant_def createWindow_def
       Let_def split: option.splits)

lemma exec_calls_battery_range:
  "1 \<le> battery s \<and> battery s \<le> 100 \<Longrightarrow>
   1 \<le> battery (exec_calls ld cs s) \<and> battery (exec_calls ld cs s) \<le> 100"
proof (induction cs arbitrary: s)
  case Nil
  then show ?case by simp
next
  case (Cons c cs)
  from exec_call_battery_range [OF Cons.prems] have
    "1 \<le> battery (exec_call ld c s) \<and> battery (exec_call ld c s) \<le> 100" .
  from Cons.IH [OF this] show ?case by simp
qed

lemma reachable_battery_range:
  "1 \<le> battery (exec_calls ld cs (GLFWPlatform_ctor r a b (process_start env))) \<and>
   battery (exec_calls ld cs (GLFWPlatform_ctor r a b (process_start env))) \<le> 100"
  by (rule exec_calls_battery_range)
     (simp add: battery_ctor process_start_def battery_init_def)

text \<open>
  C1, as stated, fails: from the counter \<open>99\<close> the call returns \<open>100\<close>, where the rule of the
  specification gives \<open>1\<close>; from the counter's initial value \<open>50\<close> this is the 50th call.
\<close>

theorem getBatteryLevel_returns_100:
  "fst (getBatteryLevel ((process_start Map.empty)\<lparr>battery := 99\<rparr>)) = 100
   \<and> spec_next_battery 99 = 1
   \<and> fst (getBatteryLevel_calls 50 (process_start Map.empty)) ! 49 = 100"
proof -
  have "0 \<le> battery (process_start Map.empty)"
    by (simp add: process_start_def battery_init_def)
  from getBatteryLevel_calls_nth [OF this, of 49 50]
  have "fst (getBatteryLevel_calls 50 (process_start Map.empty)) ! 49 = 100"
    by (simp add: process_start_def battery_init_def)
  then show ?thesis
    by (simp add: getBatteryLevel_eq spec_next_battery_def signed_modulo_int_def)
qed

text \<open>
  C1, amended: for every non-negative initial value \<open>b\<close> of the counter, a call of
  \<open>getBatteryLevel\<close> stores and returns \<open>b mod 100 + 1\<close>, a value in \<open>1..100\<close>; it is the
  value the specification's rule gives except after \<open>99\<close> (modulo 100), where it is \<open>100\<close>;
  and the \<open>k\<close>-th of \<open>n\<close> successive calls (counting from \<open>0\<close>) returns
  \<open>(b + k) mod 100 + 1\<close>: the values cycle through \<open>1..100\<close>, then wrap to \<open>1\<close>.
\<close>

theorem getBatteryLevel_cycle:
  assumes "0 \<le> battery s"
  shows "fst (getBatteryLevel s) = battery s mod 100 + 1
    \<and> battery (snd (getBatteryLevel s)) = fst (getBatteryLevel s)
    \<and> 1 \<le> fst (getBatteryLevel s) \<and> fst (getBatteryLevel s) \<le> 100
    \<and> fst (getBatteryLevel s) =
        (if battery s mod 100 = 99 then 100 else spec_next_battery (battery s))
    \<and> length (fst (getBatteryLevel_calls n s)) = n
    \<and> (\<forall>k<n. fst (getBatteryLevel_calls n s) ! k = (battery s + int k) mod 100 + 1)"
proof -
  have eq: "fst (getBatteryLevel s) = battery s mod 100 + 1"
    using assms by (simp add: getBatteryLevel_eq smod_100_nonneg)
  have bounds: "0 \<le> battery s mod 100" "battery s mod 100 < 100" by simp_all
  have spec: "fst (getBatteryLevel s) =
        (if battery s mod 100 = 99 then 100 else spec_next_battery (battery s))"
  proof (cases "battery s mod 100 = 99")
    case True
    then show ?thesis using eq by simp
  next
    case False
    with bounds have lt: "battery s mod 100 + 1 < 100" by simp
    have "(battery s + 1) mod 100 = (battery s mod 100 + 1) mod 100"
      by (simp add: mod_add_left_eq)
    also have "\<dots> = battery s mod 100 + 1"
      using bounds lt by simp
    finally have "(battery s + 1) mod 100 = battery s mod 100 + 1" .
    then show ?thesis using False eq bounds by (simp add: spec_next_battery_def)
  qed
  show ?thesis
    using eq spec getBatteryLevel_range [OF assms] getBatteryLevel_calls_nth [OF assms]
    by (simp add: getBatteryLevel_calls_length getBatteryLevel_eq)
qed

theorem getBatteryLevel_cycle_witness:
  "0 \<le> battery (process_start Map.empty)
   \<and> fst (getBatteryLevel (process_start Map.empty)) = 51
   \<and> fst (getBatteryLevel_calls 52 (process_start Map.empty)) ! 48 = 99
   \<and> fst (getBatteryLevel_calls 52 (process_start Map.empty)) ! 49 = 100
   \<and> fst (getBatteryLevel_calls 52 (process_start Map.empty)) ! 50 = 1
   \<and> fst (getBatteryLevel_calls 52 (process_start Map.empty)) ! 51 = 2"
proof -
  have h: "0 \<le> battery (process_start Map.empty)"
    by (simp add: process_start_def battery_init_def)
  have b: "battery (process_start Map.empty) = 50"
    by (simp add: process_start_def battery_init_def)
  show ?thesis
    using h getBatteryLevel_cycle [OF h, of 52] by (simp add: b)
qed

lemma getWirelessLevel_truncates:
  "fst (getWirelessLevel ((process_start Map.empty)\<lparr>battery := - 1\<rparr>)) = 0
   \<and> \<lfloor>real_of_int (- 1) / 20\<rfloor> = - 1"
  by (simp add: getWirelessLevel_def signed_divide_int_def)

text \<open>
  C4: in every state the program reaches (construction, then any sequence of calls on the
  facade), and in every state whose counter is not negative, \<open>getWirelessLevel\<close> returns
  the floor of the counter's current value divided by \<open>20\<close> and leaves the state, hence the
  counter, as it is.
\<close>

theorem getWirelessLevel_floor:
  "getWirelessLevel (exec_calls ld cs (GLFWPlatform_ctor r a b (process_start env))) =
     (\<lfloor>real_of_int (battery (exec_calls ld cs (GLFWPlatform_ctor r a b (process_start env)))) / 20\<rfloor>,
      exec_calls ld cs (GLFWPlatform_ctor r a b (process_start env)))
   \<and> (0 \<le> battery s \<longrightarrow> getWirelessLevel s = (\<lfloor>real_of_int (battery s) / 20\<rfloor>, s))
   \<and> snd (getWirelessLevel s) = s"
proof -
  let ?s = "exec_calls ld cs (GLFWPlatform_ctor r a b (process_start env))"
  have "0 \<le> battery ?s" using reachable_battery_range [of ld cs r a b env] by simp
  then show ?thesis
    by (simp add: getWirelessLevel_def sdiv_20_nonneg floor_div_20)
qed

theorem getWirelessLevel_floor_witness:
  "0 \<le> battery (snd (getBatteryLevel (process_start Map.empty)))
   \<and> fst (getWirelessLevel (snd (getBatteryLevel (process_start Map.empty)))) = 2
   \<and> \<lfloor>real_of_int (battery (snd (getBatteryLevel (process_start Map.empty)))) / 20\<rfloor> = 2
   \<and> battery (snd (getWirelessLevel (snd (getBatteryLevel (process_start Map.empty))))) = 51"
  using getWirelessLevel_floor [of "''en-US''" "[]" 1 1 2 Map.empty
      "snd (getBatteryLevel (process_start Map.empty))"]
  by (simp add: getBatteryLevel_eq process_start_def battery_init_def signed_modulo_int_def)

text \<open>
  C8: each of the ten queries returns the state it was called in; \<open>getBatteryLevel\<close> alone
  changes it, and changes the counter only: it stores the counter reduced modulo 100 plus
  one, which is the counter plus one when the counter is in \<open>0..99\<close>, and never the old
  value.
\<close>

theorem queries_frame:
  "snd (canShowBatteryLevel s) = s
   \<and> snd (isBatteryCharging s) = s
   \<and> snd (hasWirelessConnection s) = s
   \<and> snd (getWirelessLevel s) = s
   \<and> snd (getIpAddress s) = s
   \<and> snd (getDnsServer s) = s
   \<and> snd (isApplicationMode s) = s
   \<and> snd (getName s) = s
   \<and> snd (getLocale LOCALE_DEFAULT s) = s
   \<and> snd (getThemeVariant s) = s
   \<and> snd (getBatteryLevel s) = s\<lparr>battery := battery s smod 100 + 1\<rparr>
   \<and> battery (snd (getBatteryLevel s)) =
       (if 0 \<le> battery s \<and> battery s < 100 then battery s + 1 else battery s smod 100 + 1)
   \<and> battery (snd (getBatteryLevel s)) \<noteq> battery s"
proof -
  have small: "0 \<le> battery s \<and> battery s < 100 \<Longrightarrow> battery s smod 100 = battery s"
    by (simp add: smod_100_nonneg)
  have changed: "battery s smod 100 + 1 \<noteq> battery s"
  proof
    assume eq: "battery s smod 100 + 1 = battery s"
    have "battery s sdiv 100 * 100 + battery s smod 100 = battery s"
      by (rule sdiv_mult_smod_eq)
    with eq have "battery s sdiv 100 * 100 = 1" by simp
    then show False by presburger
  qed
  show ?thesis
    using small changed
    by (simp add: canShowBatteryLevel_def isBatteryCharging_def hasWirelessConnection_def
      getWirelessLevel_def getIpAddress_def getDnsServer_def isApplicationMode_def
      getName_def getLocale_def getThemeVariant_def getBatteryLevel_eq split: option.splits)
qed

text \<open>
  C9: the destructor destroys the four sub-components in the order font loader, audio
  player, video context, input manager.
\<close>

theorem dtor_order:
  assumes "fontLoader self = Some fl" and "audioPlayer self = Some ap"
    and "videoContext self = Some vc" and "inputManager self = Some im"
  shows "GLFWPlatform_dtor self destroyed =
    destroyed @ [(FontLoader, fl), (AudioPlayer, ap), (VideoContext, vc), (InputManager, im)]"
  using assms by (simp add: GLFWPlatform_dtor_def)

theorem dtor_order_witness:
  "fontLoader (this (createWindow 3 4 (GLFWPlatform_ctor 1 1 2 (process_start Map.empty)))) = Some 1
   \<and> audioPlayer (this (createWindow 3 4 (GLFWPlatform_ctor 1 1 2 (process_start Map.empty)))) = Some 2
   \<and> videoContext (this (createWindow 3 4 (GLFWPlatform_ctor 1 1 2 (process_start Map.empty)))) = Some 3
   \<and> inputManager (this (createWindow 3 4 (GLFWPlatform_ctor 1 1 2 (process_start Map.empty)))) = Some 4
   \<and> GLFWPlatform_dtor (this (createWindow 3 4 (GLFWPlatform_ctor 1 1 2 (process_start Map.empty)))) []
       = [(FontLoader, 1), (AudioPlayer, 2), (VideoContext, 3), (InputManager, 4)]"
proof -
  let ?self = "this (createWindow 3 4 (GLFWPlatform_ctor 1 1 2 (process_start Map.empty)))"
  have f: "fontLoader ?self = Some 1" and a: "audioPlayer ?self = Some 2"
    and v: "videoContext ?self = Some 3" and i: "inputManager ?self = Some 4"
    by (simp_all add: createWindow_def GLFWPlatform_ctor_def GLFWPlatform_members_def
          process_start_def getenv_def Let_def)
  from dtor_order [OF f a v i, of "[]"] f a v i show ?thesis by simp
qed

subsection \<open>Return value and control flow of the main loop iteration\<close>




lemma sim_attrib [simp]:
  "glfwGetWindowAttrib sim_glfw w GLFW_ICONIFIED = (if iconified w then 1 else 0)"
  by (simp add: sim_glfw_def)

lemma sim_close [simp]:
  "glfwWindowShouldClose sim_glfw w = (if shouldClose w then 1 else 0)"
  by (simp add: sim_glfw_def)

lemma sim_poll [simp]:
  "glfwPollEvents sim_glfw w = (case batches w of
          [] \<Rightarrow> w\<lparr>trace := trace w @ [Poll]\<rparr>
        | b # bs \<Rightarrow> fold sim_handle b (w\<lparr>batches := bs, trace := trace w @ [Poll]\<rparr>))"
  by (simp add: sim_glfw_def)

lemma sim_wait [simp]:
  "glfwWaitEvents sim_glfw w = (case batches w of
          [] \<Rightarrow> None
        | b # bs \<Rightarrow> Some (fold sim_handle b (w\<lparr>batches := bs, trace := trace w @ [Wait]\<rparr>)))"
  by (simp add: sim_glfw_def)




text \<open>
  C7: a call of \<open>mainLoopIteration\<close> returns exactly when, after some number \<open>k\<close> of waits
  each begun with the window minimized, the window is found not minimized; the call then
  polls once, without waiting, and returns whether the close request is absent. So every
  event wait of the call is made on a minimized window, the one poll on a window that is
  not minimized, and the call returns only after that check.
\<close>

theorem mainLoopIteration_waits_then_polls:
  "mainLoopIteration g w = Some (r, w') \<longleftrightarrow>
     (\<exists>k wk. minimized_waits g k w = Some wk
        \<and> glfwGetWindowAttrib g wk GLFW_ICONIFIED = 0
        \<and> w' = glfwPollEvents g wk
        \<and> r = (glfwWindowShouldClose g w' = 0))"
proof
  assume "mainLoopIteration g w = Some (r, w')"
  then have loop: "mainLoopIteration_loop g w = Some w'"
    and r: "r = (glfwWindowShouldClose g w' = 0)"
    by (auto simp: mainLoopIteration_def)
  from waits_of_loop [OF loop] r
  show "\<exists>k wk. minimized_waits g k w = Some wk
        \<and> glfwGetWindowAttrib g wk GLFW_ICONIFIED = 0
        \<and> w' = glfwPollEvents g wk
        \<and> r = (glfwWindowShouldClose g w' = 0)" by blast
next
  assume "\<exists>k wk. minimized_waits g k w = Some wk
        \<and> glfwGetWindowAttrib g wk GLFW_ICONIFIED = 0
        \<and> w' = glfwPollEvents g wk
        \<and> r = (glfwWindowShouldClose g w' = 0)"
  then obtain k wk where "minimized_waits g k w = Some wk"
    "glfwGetWindowAttrib g wk GLFW_ICONIFIED = 0" and w': "w' = glfwPollEvents g wk"
    and r: "r = (glfwWindowShouldClose g w' = 0)" by blast
  from loop_of_waits [OF this(1,2)] w' r
  show "mainLoopIteration g w = Some (r, w')" by (simp add: mainLoopIteration_def)
qed

theorem mainLoopIteration_waits_then_polls_witness:
  "minimized_waits sim_glfw 2 sim_minimized =
     Some \<lparr>iconified = False, shouldClose = True, batches = [[Iconify]], trace = [Wait, Wait]\<rparr>
   \<and> mainLoopIteration sim_glfw sim_minimized =
     Some (False, \<lparr>iconified = True, shouldClose = True, batches = [],
                   trace = [Wait, Wait, Poll]\<rparr>)"
proof -
  let ?w2 = "\<lparr>iconified = False, shouldClose = True, batches = [[Iconify]], trace = [Wait, Wait]\<rparr>"
  let ?w3 = "\<lparr>iconified = True, shouldClose = True, batches = [], trace = [Wait, Wait, Poll]\<rparr>"
  have waits: "minimized_waits sim_glfw 2 sim_minimized = Some ?w2"
    by (simp add: sim_minimized_def numeral_2_eq_2)
  have "\<exists>k wk. minimized_waits sim_glfw k sim_minimized = Some wk
        \<and> glfwGetWindowAttrib sim_glfw wk GLFW_ICONIFIED = 0
        \<and> ?w3 = glfwPollEvents sim_glfw wk
        \<and> False = (glfwWindowShouldClose sim_glfw ?w3 = 0)"
    using waits by (intro exI [of _ 2] exI [of _ ?w2]) simp
  with mainLoopIteration_waits_then_polls [of sim_glfw sim_minimized False ?w3] waits
  show ?thesis by simp
qed

subsection \<open>Video context\<close>



text \<open>
  C10: \<open>clear\<close> calls \<^verbatim>\<open>glClearColor\<close> with the red, green and blue channels of its
  argument and the alpha \<open>1.0\<close>, whatever the argument's alpha is, and then \<^verbatim>\<open>glClear\<close> on
  the color, depth and stencil buffers; it makes no other call and keeps the scale factor.
\<close>

theorem clear_alpha_one:
  "calls (clear color v) =
     calls v @ [GlClearColor (color_r color) (color_g color) (color_b color) 1,
                GlClear (GL_COLOR_BUFFER_BIT OR GL_DEPTH_BUFFER_BIT OR GL_STENCIL_BUFFER_BIT)]
   \<and> clear (color\<lparr>color_a := alpha\<rparr>) v = clear color v
   \<and> scaleFactor (clear color v) = scaleFactor v
   \<and> GL_COLOR_BUFFER_BIT OR GL_DEPTH_BUFFER_BIT OR GL_STENCIL_BUFFER_BIT = (0x4500 :: 32 word)"
  by (simp add: clear_def Let_def GL_COLOR_BUFFER_BIT_def GL_DEPTH_BUFFER_BIT_def
        GL_STENCIL_BUFFER_BIT_def)

end
